theory Spec2Isabelle
  imports
    Main
    "HOL-Library.Word"
    "HOL-Library.Multiset"
    "HOL-Library.Product_Lexorder"
begin

section \<open>Text, bytes and the library calls of the scripts\<close>

text \<open>
  A Python \<open>str\<close> is a sequence of code points; it is modelled as a list of characters.
  The candidate generator only slices and concatenates, so it is written over any
  character type \<open>'c\<close>, with the result of \<open>str.upper\<close> on a one-character string taken
  as a parameter \<open>up\<close> (Python returns a string there, not a character). The concrete
  configuration of the scripts uses \<open>string\<close>, whose characters stand for the code points
  U+0000 to U+00FF. A Python \<open>bytes\<close> value is a list of 8-bit words.
\<close>

type_synonym byte = "8 word"
type_synonym bytes = "byte list"

definition ascii_lowercase :: string where
  "ascii_lowercase = ''abcdefghijklmnopqrstuvwxyz''"

definition ascii_uppercase :: string where
  "ascii_uppercase = ''ABCDEFGHIJKLMNOPQRSTUVWXYZ''"

definition latin1_lowercase :: string where
  "latin1_lowercase =
     [CHR 0xE0, CHR 0xE1, CHR 0xE2, CHR 0xE3, CHR 0xE4, CHR 0xE5, CHR 0xE6, CHR 0xE7,
      CHR 0xE8, CHR 0xE9, CHR 0xEA, CHR 0xEB, CHR 0xEC, CHR 0xED, CHR 0xEE, CHR 0xEF,
      CHR 0xF0, CHR 0xF1, CHR 0xF2, CHR 0xF3, CHR 0xF4, CHR 0xF5, CHR 0xF6, CHR 0xF8,
      CHR 0xF9, CHR 0xFA, CHR 0xFB, CHR 0xFC, CHR 0xFD, CHR 0xFE]"

definition latin1_uppercase :: string where
  "latin1_uppercase =
     [CHR 0xC0, CHR 0xC1, CHR 0xC2, CHR 0xC3, CHR 0xC4, CHR 0xC5, CHR 0xC6, CHR 0xC7,
      CHR 0xC8, CHR 0xC9, CHR 0xCA, CHR 0xCB, CHR 0xCC, CHR 0xCD, CHR 0xCE, CHR 0xCF,
      CHR 0xD0, CHR 0xD1, CHR 0xD2, CHR 0xD3, CHR 0xD4, CHR 0xD5, CHR 0xD6, CHR 0xD8,
      CHR 0xD9, CHR 0xDA, CHR 0xDB, CHR 0xDC, CHR 0xDD, CHR 0xDE]"

text \<open>
  \<open>str.upper\<close> on a one-character string, for the code points below U+0100: the letters
  a to z go to A to Z, the letters U+00E0 to U+00FE (but the division sign U+00F7) go to
  U+00C0 to U+00DE, the sharp s (U+00DF) goes to the two characters SS, and the other
  code points are returned as they are. Two code points are left as they are although
  Python changes them, because their capitals lie above U+00FF: the micro sign U+00B5 and
  the y with diaeresis U+00FF. No statement below applies the table to these two, and
  the general theorems take the uppercasing function as the parameter \<open>up\<close>.
\<close>

definition str_upper :: "char \<Rightarrow> string" where
  "str_upper c =
     (case map_of (zip ascii_lowercase ascii_uppercase) c of
        Some u \<Rightarrow> [u]
      | None \<Rightarrow>
          (case map_of (zip latin1_lowercase latin1_uppercase) c of
             Some u \<Rightarrow> [u]
           | None \<Rightarrow> if c = CHR 0xDF then ''SS'' else [c]))"

text \<open>\<open>str(i)\<close> for a non-negative integer: its decimal digits.\<close>

fun str :: "nat \<Rightarrow> string" where
  "str n =
     (if n < 10 then [''0123456789'' ! n]
      else str (n div 10) @ [''0123456789'' ! (n mod 10)])"

text \<open>\<open>str.encode('utf-8')\<close> on the code points below U+0100: one byte below U+0080, two above.\<close>

definition utf8_of_char :: "char \<Rightarrow> bytes" where
  "utf8_of_char c =
     (let n = (of_char c :: nat) in
      if n < 128 then [of_nat n] else [of_nat (192 + n div 64), of_nat (128 + n mod 64)])"

definition encode_utf8 :: "string \<Rightarrow> bytes" where
  "encode_utf8 s = concat (map utf8_of_char s)"

text \<open>A bytes literal of ASCII characters, such as the Fernet tokens of the scripts.\<close>

definition ascii_bytes :: "string \<Rightarrow> bytes" where
  "ascii_bytes s = map of_char s"

text \<open>
  The exceptions the calls inside \<open>decrypt\<close> can raise, and the calls themselves. The
  cryptography package and the UTF-8 decoder are not part of the repository: they are the
  fields of a record, and every theorem about the verifier holds for any such record.
  \<open>kdf_derive\<close> is \<open>PBKDF2HMAC(...).derive\<close>, \<open>fernet_decrypt key token\<close> is
  \<open>Fernet(key).decrypt(token)\<close>, \<open>decode_utf8\<close> is \<open>bytes.decode('utf-8')\<close>, which
  raises \<open>UnicodeDecodeError\<close> and nothing else: \<open>None\<close> stands for that.
\<close>

datatype exn = InvalidToken | UnicodeDecodeError | ValueError | TypeError

datatype hash_algorithm = SHA256

record pbkdf2hmac =
  algorithm :: hash_algorithm
  key_length :: nat
  kdf_salt :: bytes
  iterations :: nat

record library =
  kdf_derive :: "pbkdf2hmac \<Rightarrow> bytes \<Rightarrow> bytes"
  urlsafe_b64encode :: "bytes \<Rightarrow> bytes"
  fernet_decrypt :: "bytes \<Rightarrow> bytes \<Rightarrow> exn + bytes"
  decode_utf8 :: "bytes \<Rightarrow> string option"

text \<open>
  What a script writes to the console. A progress line and the closing lines carry wall-clock
  values (speed, duration); those fields are left out of the line.
\<close>

datatype line = Text string | Progress nat string | Tested nat | Elapsed

type_synonym console = "line list"

definition print :: "string \<Rightarrow> console \<Rightarrow> console" where
  "print s con = con @ [Text s]"

section \<open>Fase5\_cracker.py\<close>

subsection \<open>Target data and password components\<close>

definition ATTACK_MODE :: string where
  "ATTACK_MODE = ''QUICK_TEST''"

definition salt :: bytes where
  "salt = [0xd2, 0xff, 0x73, 0x7e, 0xb4, 0xf2, 0xd3, 0xda,
           0xe3, 0x16, 0x28, 0x27, 0xe6, 0xad, 0xef, 0xaf]"

definition ciphertext :: bytes where
  "ciphertext = ascii_bytes
     (''gAAAAABnE2P-qqJT-HudMbLcykzIx83XqZNEt6UqfyBBzhYKvlF9WSx8FJUvUmatzuY1-io9RHWaj7RV'' @
      ''BuAKTWRAVT9GpGC--TZUXk387qeTC2jIJOfUrwSX3eGEb1EVFZBOqALd8EKS1CFWUoF4NpzKsc3eLeCn'' @
      ''Xihb-w6Boqi835uNzN6mZz4iP-6sSkhNxHP-TbrG-BNgjMIyeRDjSLAZhEAJoUGlz_QuOyyOYHMab9LU'' @
      ''rXkHibU='')"

definition full_dictionary :: "string list" where
  "full_dictionary =
     [''gatto'', ''giulia'', ''martina'', ''pisa'', ''poesia'', ''qwerty'', ''sicurezza'',
      ''storia'', ''tavolo'']"

definition symbols :: "string list" where
  "symbols = [''!'', ''$'', ''%'', ''&'', ''?'', ''^'', ''*'', ''+'', ''@'', ''#'']"

definition numbers :: "string list" where
  "numbers = map str [0..<10]"

definition dictionary_to_use :: "string \<Rightarrow> string list" where
  "dictionary_to_use attack_mode =
     (if attack_mode = ''QUICK_TEST'' then [''sicurezza''] else full_dictionary)"

subsection \<open>The verifier \<open>decrypt\<close>\<close>

text \<open>The key-derivation object built at the top of \<open>decrypt\<close>, from the global \<open>salt\<close>.\<close>

definition decrypt_kdf :: pbkdf2hmac where
  "decrypt_kdf = \<lparr>algorithm = SHA256, key_length = 32, kdf_salt = salt, iterations = 100000\<rparr>"

text \<open>
  The body of the \<open>try\<close> block, statement by statement: an exception leaves it at once with
  the console as it is by then. The five \<open>print\<close> calls come after the decryption; the third
  and the fourth decode the password and the plaintext.
\<close>

definition decrypt_body :: "library \<Rightarrow> bytes \<Rightarrow> console \<Rightarrow> (exn + bool) \<times> console" where
  "decrypt_body lib passwd_bytes con =
     (let kdf = decrypt_kdf;
          key = urlsafe_b64encode lib (kdf_derive lib kdf passwd_bytes)
      in case fernet_decrypt lib key ciphertext of
           Inl e \<Rightarrow> (Inl e, con)
         | Inr plaintext \<Rightarrow>
             (let con1 = print (CHR 0x0A # replicate 50 CHR ''='') con;
                  con2 = print ''[!!!] SUCCESS! PASSWORD FOUND [!!!]'' con1
              in case decode_utf8 lib passwd_bytes of
                   None \<Rightarrow> (Inl UnicodeDecodeError, con2)
                 | Some password \<Rightarrow>
                     (let con3 = print ('' -> Password: '' @ password) con2
                      in case decode_utf8 lib plaintext of
                           None \<Rightarrow> (Inl UnicodeDecodeError, con3)
                         | Some message \<Rightarrow>
                             (let con4 = print ('' -> Plaintext: '' @ message) con3;
                                  con5 = print (replicate 50 CHR ''='') con4
                              in (Inr True, con5)))))"

text \<open>\<open>except InvalidToken: return False\<close>; any other exception leaves \<open>decrypt\<close>.\<close>

definition decrypt :: "library \<Rightarrow> bytes \<Rightarrow> console \<Rightarrow> (exn + bool) \<times> console" where
  "decrypt lib passwd_bytes con =
     (case decrypt_body lib passwd_bytes con of
        (Inl e, con') \<Rightarrow> if e = InvalidToken then (Inr False, con') else (Inl e, con')
      | (Inr b, con') \<Rightarrow> (Inr b, con'))"

subsection \<open>The generator \<open>password_generator\<close>\<close>

text \<open>
  The three string constructions of the loop body. \<open>base_word[i]\<close> is read for
  \<open>i\<close> in \<open>range(len(base_word))\<close> only, so the index is in range.
\<close>

definition capitalized_word :: "('c \<Rightarrow> 'c list) \<Rightarrow> 'c list \<Rightarrow> nat \<Rightarrow> 'c list" where
  "capitalized_word up base_word i =
     take i base_word @ up (base_word ! i) @ drop (i + 1) base_word"

definition word_with_sym :: "'c list \<Rightarrow> 'c list \<Rightarrow> nat \<Rightarrow> 'c list" where
  "word_with_sym cw symbol j = take j cw @ symbol @ drop j cw"

definition final_password :: "'c list \<Rightarrow> 'c list \<Rightarrow> nat \<Rightarrow> 'c list" where
  "final_password ws number k = take k ws @ number @ drop k ws"

text \<open>
  The nested loops, innermost first; a generator is the list of what it yields, in order.
  \<open>number_loop\<close> is the two loops over \<open>numbers\<close> and \<open>k\<close>, \<open>symbol_loop\<close> the two over
  \<open>symbols\<close> and \<open>j\<close>, \<open>capital_loop\<close> the loop over \<open>i\<close>. The global lists \<open>symbols\<close> and
  \<open>numbers\<close> are passed as \<open>syms\<close> and \<open>nums\<close>.
\<close>

definition number_loop :: "'c list list \<Rightarrow> 'c list \<Rightarrow> 'c list list" where
  "number_loop nums ws =
     concat (map (\<lambda>number.
       map (\<lambda>k. final_password ws number k) [0..<length ws + 1]) nums)"

definition symbol_loop :: "'c list list \<Rightarrow> 'c list list \<Rightarrow> 'c list \<Rightarrow> 'c list list" where
  "symbol_loop syms nums cw =
     concat (map (\<lambda>symbol.
       concat (map (\<lambda>j. number_loop nums (word_with_sym cw symbol j))
         [0..<length cw + 1])) syms)"

definition capital_loop ::
  "('c \<Rightarrow> 'c list) \<Rightarrow> 'c list list \<Rightarrow> 'c list list \<Rightarrow> 'c list \<Rightarrow> 'c list list" where
  "capital_loop up syms nums base_word =
     concat (map (\<lambda>i. symbol_loop syms nums (capitalized_word up base_word i))
       [0..<length base_word])"

definition password_generator ::
  "('c \<Rightarrow> 'c list) \<Rightarrow> 'c list list \<Rightarrow> 'c list list \<Rightarrow> 'c list list \<Rightarrow> 'c list list" where
  "password_generator up syms nums dictionary =
     concat (map (capital_loop up syms nums) dictionary)"

subsection \<open>The attack loop and the summary\<close>

record run_state =
  attempts :: nat
  password_found :: bool
  out :: console

text \<open>
  The main loop over the candidates. An exception of \<open>decrypt\<close> other than the one it
  catches ends the script. \<open>break\<close> leaves the remaining candidates untouched.
\<close>

fun attack_loop :: "library \<Rightarrow> string list \<Rightarrow> run_state \<Rightarrow> exn + run_state" where
  "attack_loop lib [] st = Inr st"
| "attack_loop lib (password_guess # rest) st =
     (let st1 = st\<lparr>attempts := attempts st + 1\<rparr>;
          st2 = (if attempts st1 mod 5000 = 0
                 then st1\<lparr>out := out st1 @ [Progress (attempts st1) password_guess]\<rparr>
                 else st1)
      in case decrypt lib (encode_utf8 password_guess) (out st2) of
           (Inl e, con) \<Rightarrow> Inl e
         | (Inr True, con) \<Rightarrow> Inr (st2\<lparr>out := con, password_found := True\<rparr>)
         | (Inr False, con) \<Rightarrow> attack_loop lib rest (st2\<lparr>out := con\<rparr>))"

definition mode_banner :: "string \<Rightarrow> line" where
  "mode_banner attack_mode =
     (if attack_mode = ''QUICK_TEST''
      then Text ''[INFO] Running in QUICK_TEST mode on the word 'sicurezza'.''
      else Text ''[INFO] Running in FULL ATTACK mode on the entire dictionary.'')"

definition initial_state :: "string \<Rightarrow> run_state" where
  "initial_state attack_mode =
     \<lparr>attempts = 0, password_found = False,
      out = [mode_banner attack_mode, Text (replicate 60 CHR ''=''),
             Text ''Starting Cracker...'', Text (replicate 60 CHR ''='')]\<rparr>"

definition summary :: "run_state \<Rightarrow> run_state" where
  "summary st =
     st\<lparr>out := out st @
       [Text (CHR 0x0A # replicate 60 CHR ''=''), Text ''Attack Summary'',
        Text (replicate 60 CHR ''=''),
        (if \<not> password_found st then Text ''[RESULT] FAILURE: Password not found.''
         else Text ''[RESULT] SUCCESS: The password was found and the message decrypted.''),
        Tested (attempts st), Elapsed, Text (replicate 60 CHR ''='')]\<rparr>"

definition cracker :: "library \<Rightarrow> string \<Rightarrow> exn + run_state" where
  "cracker lib attack_mode =
     (let password_candidates =
            password_generator str_upper symbols numbers (dictionary_to_use attack_mode)
      in case attack_loop lib password_candidates (initial_state attack_mode) of
           Inl e \<Rightarrow> Inl e
         | Inr st \<Rightarrow> Inr (summary st))"

section \<open>Fase3\_benchmark.py\<close>

text \<open>
  The bytes literal of the benchmark's salt has \<open>\da\<close> where the cracker's has \<open>\xda\<close>:
  \<open>\d\<close> is no escape sequence of Python, so the backslash and the two letters stay as
  three bytes.
\<close>

definition benchmark_salt :: bytes where
  "benchmark_salt = [0xd2, 0xff, 0x73, 0x7e, 0xb4, 0xf2, 0xd3, 0x5c, 0x64, 0x61,
                     0xe3, 0x16, 0x28, 0x27, 0xe6, 0xad, 0xef, 0xaf]"

definition benchmark_ciphertext :: bytes where
  "benchmark_ciphertext = ascii_bytes
     (''gAAAAABmE2P-qqJT-HudMbLcykzIx83XqZNEt6UqfyBBzhYKvlF9WSx8FJUvUmatzuYl-iO9RHwAj7RV'' @
      ''BuAkTwRAVT9GpCC--TZUXk387qeTC2jIJOfUrwSX3eGEb1EVFZBOqALd8EKS1CFWUoF4NpzKsc3eLeCn'' @
      ''Xihb-w6Boqi835uNzN6mZz4iP-6sSkhNxHF-TbrG-BNgjMIyeRDjSLAZHEAJoUGlz_QuOyyOYHMab9LU'' @
      ''rXkHibU='')"

definition check_password_silent_kdf :: pbkdf2hmac where
  "check_password_silent_kdf =
     \<lparr>algorithm = SHA256, key_length = 32, kdf_salt = benchmark_salt, iterations = 100000\<rparr>"

text \<open>The silent check: it prints nothing and returns \<open>None\<close> whether or not the key fits.\<close>

definition check_password_silent :: "library \<Rightarrow> bytes \<Rightarrow> console \<Rightarrow> (exn + unit) \<times> console" where
  "check_password_silent lib passwd_bytes con =
     (let kdf = check_password_silent_kdf;
          key = urlsafe_b64encode lib (kdf_derive lib kdf passwd_bytes)
      in case fernet_decrypt lib key benchmark_ciphertext of
           Inl e \<Rightarrow> if e = InvalidToken then (Inr (), con) else (Inl e, con)
         | Inr plaintext \<Rightarrow> (Inr (), con))"

section \<open>Fase4\_final\_calculator.py\<close>

definition dictionary :: "string list" where
  "dictionary =
     [''gatto'', ''giulia'', ''martina'', ''password'', ''pisa'', ''poesia'', ''qwerty'',
      ''sicurezza'', ''storia'', ''tavolo'']"

definition special_chars :: "string list" where
  "special_chars = [''!'', ''$'', ''%'', ''&'', ''?'', ''^'', ''*'', ''+'', ''@'', ''#'']"

definition calculator_numbers :: "string list" where
  "calculator_numbers = map str [0..<10]"

text \<open>The body of the loop over the dictionary, and the loop that sums it up.\<close>

definition combinations_for_this_word :: "'c list list \<Rightarrow> 'c list list \<Rightarrow> 'c list \<Rightarrow> nat" where
  "combinations_for_this_word nums specials word =
     (let word_len = length word;
          capitalization_options = word_len;
          number_insertion_options = length nums * (word_len + 1);
          symbol_insertion_options = length specials * (word_len + 2)
      in capitalization_options * number_insertion_options * symbol_insertion_options)"

definition total_combinations_of :: "'c list list \<Rightarrow> 'c list list \<Rightarrow> 'c list list \<Rightarrow> nat" where
  "total_combinations_of nums specials words =
     foldl (\<lambda>total word. total + combinations_for_this_word nums specials word) 0 words"

definition total_combinations :: nat where
  "total_combinations = total_combinations_of calculator_numbers special_chars dictionary"

section \<open>Notions of the specification\<close>

text \<open>
  The specification's description of one candidate: the base word with only position \<open>i\<close>
  uppercased and every other position unchanged, then the symbol inserted at position \<open>j\<close>,
  then the digit inserted at position \<open>k\<close>.
\<close>

definition uppercased_only_at :: "('c \<Rightarrow> 'c list) \<Rightarrow> nat \<Rightarrow> 'c list \<Rightarrow> 'c list" where
  "uppercased_only_at up i w =
     concat (map (\<lambda>p. if p = i then up (w ! p) else [w ! p]) [0..<length w])"

definition inserted_at :: "nat \<Rightarrow> 'c list \<Rightarrow> 'c list \<Rightarrow> 'c list" where
  "inserted_at j s xs = take j xs @ s @ drop j xs"

text \<open>
  A choice of the six loop variables, as positions: word \<open>a\<close> of the wordlist, letter
  \<open>i\<close>, symbol \<open>b\<close> of the symbol list, insertion point \<open>j\<close>, digit \<open>c\<close> of the digit
  list, insertion point \<open>k\<close>. Tuples are ordered lexicographically, the outer loop first.
\<close>

type_synonym position = "nat \<times> nat \<times> nat \<times> nat \<times> nat \<times> nat"

definition candidate_at ::
  "('c \<Rightarrow> 'c list) \<Rightarrow> 'c list list \<Rightarrow> 'c list list \<Rightarrow> 'c list list \<Rightarrow> position \<Rightarrow> 'c list" where
  "candidate_at up syms nums wordlist =
     (\<lambda>(a, i, b, j, c, k).
        inserted_at k (nums ! c) (inserted_at j (syms ! b) (uppercased_only_at up i (wordlist ! a))))"

definition candidate_positions ::
  "('c \<Rightarrow> 'c list) \<Rightarrow> 'c list list \<Rightarrow> 'c list list \<Rightarrow> 'c list list \<Rightarrow> position set" where
  "candidate_positions up syms nums wordlist =
     {(a, i, b, j, c, k).
        a < length wordlist \<and> i < length (wordlist ! a) \<and>
        b < length syms \<and> j \<le> length (uppercased_only_at up i (wordlist ! a)) \<and>
        c < length nums \<and>
        k \<le> length (inserted_at j (syms ! b) (uppercased_only_at up i (wordlist ! a)))}"

text \<open>
  The positions the loops of the generator run through, level by level and in the order
  of the loops; they relate the generator to the set of positions above.
\<close>

definition number_positions :: "'c list list \<Rightarrow> 'c list \<Rightarrow> (nat \<times> nat) list" where
  "number_positions nums ws =
     concat (map (\<lambda>c. map (Pair c) [0..<length ws + 1]) [0..<length nums])"

definition symbol_positions ::
  "'c list list \<Rightarrow> 'c list list \<Rightarrow> 'c list \<Rightarrow> (nat \<times> nat \<times> nat \<times> nat) list" where
  "symbol_positions syms nums cw =
     concat (map (\<lambda>b. map (Pair b)
       (concat (map (\<lambda>j. map (Pair j) (number_positions nums (word_with_sym cw (syms ! b) j)))
          [0..<length cw + 1]))) [0..<length syms])"

definition capital_positions ::
  "('c \<Rightarrow> 'c list) \<Rightarrow> 'c list list \<Rightarrow> 'c list list \<Rightarrow> 'c list \<Rightarrow>
   (nat \<times> nat \<times> nat \<times> nat \<times> nat) list" where
  "capital_positions up syms nums w =
     concat (map (\<lambda>i. map (Pair i) (symbol_positions syms nums (capitalized_word up w i)))
       [0..<length w])"

definition generator_positions ::
  "('c \<Rightarrow> 'c list) \<Rightarrow> 'c list list \<Rightarrow> 'c list list \<Rightarrow> 'c list list \<Rightarrow> position list" where
  "generator_positions up syms nums wordlist =
     concat (map (\<lambda>a. map (Pair a) (capital_positions up syms nums (wordlist ! a)))
       [0..<length wordlist])"

text \<open>The closed-form size of the candidate space of a wordlist.\<close>

definition closed_form_total :: "nat \<Rightarrow> nat \<Rightarrow> 'c list list \<Rightarrow> nat" where
  "closed_form_total n_symbols n_digits wordlist =
     (\<Sum>w\<leftarrow>wordlist. length w * n_symbols * (length w + 1) * n_digits * (length w + 2))"


definition verifier_rejects :: "library \<Rightarrow> string \<Rightarrow> bool" where
  "verifier_rejects lib candidate = (fst (decrypt lib (encode_utf8 candidate) []) = Inr False)"

datatype driver_state = Running | Succeeded | Exhausted


text \<open>The five lines \<open>decrypt\<close> prints when a password fits.\<close>

definition success_lines :: "string \<Rightarrow> string \<Rightarrow> console" where
  "success_lines password message =
     [Text (CHR 0x0A # replicate 50 CHR ''=''), Text ''[!!!] SUCCESS! PASSWORD FOUND [!!!]'',
      Text ('' -> Password: '' @ password), Text ('' -> Plaintext: '' @ message),
      Text (replicate 50 CHR ''='')]"

text \<open>
  A stand-in for the library, for concrete runs: key derivation prepends the salt, the
  token opens under the keys of the passwords of \<open>accepted\<close> only and then gives
  \<open>plaintext\<close>, and the decoder knows the texts of \<open>known\<close> and takes every other byte
  string as undecodable.
\<close>

definition test_library :: "string list \<Rightarrow> bytes \<Rightarrow> string list \<Rightarrow> library" where
  "test_library accepted plaintext known =
     \<lparr>kdf_derive = (\<lambda>kdf passwd_bytes. kdf_salt kdf @ passwd_bytes),
      urlsafe_b64encode = (\<lambda>bs. bs),
      fernet_decrypt = (\<lambda>key token.
        if key \<in> set (map (\<lambda>p. salt @ encode_utf8 p) accepted) \<or>
           key \<in> set (map (\<lambda>p. benchmark_salt @ encode_utf8 p) accepted)
        then Inr plaintext else Inl InvalidToken),
      decode_utf8 = (\<lambda>bs. find (\<lambda>t. encode_utf8 t = bs) known)\<rparr>"

section \<open>The size of the candidate space\<close>

lemma numbers_eq:
  "numbers = map (\<lambda>digit. [digit]) ''0123456789''"
  by (simp add: numbers_def upt_rec)

lemma length_concat_map_const:
  "(\<And>x. x \<in> set xs \<Longrightarrow> length (f x) = c) \<Longrightarrow> length (concat (map f xs)) = length xs * c"
  by (induction xs) auto

lemma length_number_loop: "length (number_loop nums ws) = length nums * (length ws + 1)"
proof -
  have "length (map (\<lambda>k. final_password ws number k) [0..<length ws + 1]) = length ws + 1"
    for number :: "'a list"
    by simp
  then show ?thesis
    unfolding number_loop_def by (rule length_concat_map_const)
qed

lemma length_word_with_sym:
  "j \<le> length cw \<Longrightarrow> length (word_with_sym cw symbol j) = length cw + length symbol"
  by (simp add: word_with_sym_def)

lemma length_symbol_loop:
  assumes "\<And>s. s \<in> set syms \<Longrightarrow> length s = 1"
  shows "length (symbol_loop syms nums cw) =
         length syms * ((length cw + 1) * (length nums * (length cw + 2)))"
proof -
  have inner: "length (concat (map (\<lambda>j. number_loop nums (word_with_sym cw s j)) [0..<length cw + 1]))
      = (length cw + 1) * (length nums * (length cw + 2))" if "s \<in> set syms" for s
  proof -
    have "length (number_loop nums (word_with_sym cw s j)) = length nums * (length cw + 2)"
      if "j \<in> set [0..<length cw + 1]" for j
    proof -
      from that have "j \<le> length cw" by auto
      then have "length (word_with_sym cw s j) = length cw + 1"
        using assms[OF \<open>s \<in> set syms\<close>] by (simp add: length_word_with_sym)
      then show ?thesis by (simp add: length_number_loop)
    qed
    then have "length (concat (map (\<lambda>j. number_loop nums (word_with_sym cw s j)) [0..<length cw + 1]))
      = length [0..<length cw + 1] * (length nums * (length cw + 2))"
      by (rule length_concat_map_const)
    then show ?thesis by simp
  qed
  show ?thesis unfolding symbol_loop_def
    by (rule length_concat_map_const) (rule inner)
qed

lemma length_capitalized_word:
  "i < length w \<Longrightarrow> length (up (w ! i)) = 1 \<Longrightarrow> length (capitalized_word up w i) = length w"
  by (simp add: capitalized_word_def)

lemma length_capital_loop:
  assumes "\<And>s. s \<in> set syms \<Longrightarrow> length s = 1"
    and "\<And>c. c \<in> set w \<Longrightarrow> length (up c) = 1"
  shows "length (capital_loop up syms nums w) =
         length w * length syms * (length w + 1) * length nums * (length w + 2)"
proof -
  have "length (symbol_loop syms nums (capitalized_word up w i))
      = length syms * ((length w + 1) * (length nums * (length w + 2)))"
    if "i \<in> set [0..<length w]" for i
  proof -
    from that have "i < length w" by simp
    then have "length (capitalized_word up w i) = length w"
      using assms(2) by (simp add: length_capitalized_word)
    then show ?thesis by (simp only: length_symbol_loop[OF assms(1)])
  qed
  then have "length (concat (map (\<lambda>i. symbol_loop syms nums (capitalized_word up w i)) [0..<length w]))
      = length [0..<length w] * (length syms * ((length w + 1) * (length nums * (length w + 2))))"
    by (rule length_concat_map_const)
  then show ?thesis unfolding capital_loop_def by (simp only: length_upt diff_zero mult.assoc)
qed

lemma password_generator_single: "password_generator up syms nums [w] = capital_loop up syms nums w"
  by (simp add: password_generator_def)

lemma length_password_generator_sum:
  "length (password_generator up syms nums wordlist) =
   (\<Sum>w\<leftarrow>wordlist. length (password_generator up syms nums [w]))"
  by (induction wordlist) (simp_all add: password_generator_def)

lemma length_password_generator:
  assumes "\<And>s. s \<in> set syms \<Longrightarrow> length s = 1"
    and "\<And>w c. w \<in> set wordlist \<Longrightarrow> c \<in> set w \<Longrightarrow> length (up c) = 1"
  shows "length (password_generator up syms nums wordlist) =
         closed_form_total (length syms) (length nums) wordlist"
proof -
  have "length (password_generator up syms nums [w]) =
        length w * length syms * (length w + 1) * length nums * (length w + 2)"
    if "w \<in> set wordlist" for w
    unfolding password_generator_single
    using assms(2)[OF that] by (intro length_capital_loop[OF assms(1)]) auto
  then have "map (\<lambda>w. length (password_generator up syms nums [w])) wordlist =
        map (\<lambda>w. length w * length syms * (length w + 1) * length nums * (length w + 2)) wordlist"
    by simp
  then show ?thesis
    unfolding closed_form_total_def length_password_generator_sum[of up syms nums wordlist]
    by (simp only:)
qed

lemma symbols_single: "s \<in> set symbols \<Longrightarrow> length s = 1"
  by (auto simp: symbols_def)

lemma str_upper_lowercase:
  "c \<in> set ascii_lowercase \<Longrightarrow> \<exists>u. str_upper c = [u] \<and> u \<in> set ascii_uppercase"
  by (auto simp: ascii_lowercase_def ascii_uppercase_def str_upper_def)

lemma length_str_upper_lowercase: "c \<in> set ascii_lowercase \<Longrightarrow> length (str_upper c) = 1"
  using str_upper_lowercase by fastforce

lemma full_dictionary_lowercase: "w \<in> set full_dictionary \<Longrightarrow> c \<in> set w \<Longrightarrow> c \<in> set ascii_lowercase"
  by (auto simp: full_dictionary_def ascii_lowercase_def)

lemma str_upper_sharp_s: "str_upper (CHR 0xDF) = ''SS''"
  by (simp add: str_upper_def ascii_lowercase_def ascii_uppercase_def
      latin1_lowercase_def latin1_uppercase_def)

lemma length_sharp_s: "length (password_generator str_upper symbols numbers [[CHR 0xDF]]) = 1200"
proof -
  have "password_generator str_upper symbols numbers [[CHR 0xDF]] = symbol_loop symbols numbers ''SS''"
    by (simp add: password_generator_single capital_loop_def capitalized_word_def str_upper_sharp_s)
  moreover have "length (symbol_loop symbols numbers ''SS'') =
      length symbols * ((length ''SS'' + 1) * (length numbers * (length ''SS'' + 2)))"
    by (rule length_symbol_loop[OF symbols_single])
  ultimately show ?thesis by (simp add: symbols_def numbers_def)
qed

section \<open>The verifier and the attack loop\<close>

lemma decrypt_body_console:
  "decrypt_body lib p con = (fst (decrypt_body lib p []), con @ snd (decrypt_body lib p []))"
  by (simp add: decrypt_body_def print_def Let_def split: sum.splits option.splits)

lemma decrypt_console:
  "decrypt lib p con = (fst (decrypt lib p []), con @ snd (decrypt lib p []))"
proof -
  obtain r out' where b: "decrypt_body lib p [] = (r, out')" by (cases "decrypt_body lib p []")
  then have "decrypt_body lib p con = (r, con @ out')"
    using decrypt_body_console[of lib p con] by simp
  with b show ?thesis by (simp add: decrypt_def split: sum.splits)
qed

lemma decrypt_invalid_token:
  "fernet_decrypt lib (urlsafe_b64encode lib (kdf_derive lib decrypt_kdf p)) ciphertext = Inl InvalidToken
   \<Longrightarrow> decrypt lib p con = (Inr False, con)"
  by (simp add: decrypt_def decrypt_body_def)

lemma decrypt_False_iff:
  "fst (decrypt lib p con) = Inr False \<longleftrightarrow>
   fernet_decrypt lib (urlsafe_b64encode lib (kdf_derive lib decrypt_kdf p)) ciphertext = Inl InvalidToken"
  by (auto simp: decrypt_def decrypt_body_def Let_def split: sum.splits option.splits)

lemma decrypt_rejects_silent:
  "fst (decrypt lib p con) = Inr False \<Longrightarrow> snd (decrypt lib p con) = con"
  by (simp add: decrypt_False_iff decrypt_invalid_token)

lemma attack_loop_rejected_step:
  assumes "verifier_rejects lib c"
  shows "attack_loop lib (c # rest) st =
         attack_loop lib rest
           (if (attempts st + 1) mod 5000 = 0
            then st\<lparr>attempts := attempts st + 1, out := out st @ [Progress (attempts st + 1) c]\<rparr>
            else st\<lparr>attempts := attempts st + 1\<rparr>)"
proof -
  have r: "decrypt lib (encode_utf8 c) con = (Inr False, con)" for con
    using assms decrypt_console[of lib "encode_utf8 c" con]
      decrypt_rejects_silent[of lib "encode_utf8 c" "[]"]
    by (simp add: verifier_rejects_def)
  show ?thesis by (simp add: Let_def r)
qed


lemma attack_loop_all_rejected:
  "(\<And>c. c \<in> set cands \<Longrightarrow> verifier_rejects lib c) \<Longrightarrow>
   \<exists>st'. attack_loop lib cands st = Inr st' \<and> attempts st' = attempts st + length cands \<and>
         password_found st' = password_found st"
proof (induction cands arbitrary: st)
  case Nil
  then show ?case by simp
next
  case (Cons c cands)
  have rej: "verifier_rejects lib c" by (simp add: Cons.prems)
  let ?st = "(if (attempts st + 1) mod 5000 = 0
            then st\<lparr>attempts := attempts st + 1, out := out st @ [Progress (attempts st + 1) c]\<rparr>
            else st\<lparr>attempts := attempts st + 1\<rparr>)"
  from Cons.IH[of ?st] Cons.prems
  obtain st' where "attack_loop lib cands ?st = Inr st'" "attempts st' = attempts ?st + length cands"
    "password_found st' = password_found ?st" by auto
  then show ?case
    unfolding attack_loop_rejected_step[OF rej] by (auto split: if_splits)
qed


lemma verifier_rejects_iff:
  "verifier_rejects lib c \<longleftrightarrow>
   fernet_decrypt lib (urlsafe_b64encode lib (kdf_derive lib decrypt_kdf (encode_utf8 c))) ciphertext
     = Inl InvalidToken"
  by (simp add: verifier_rejects_def decrypt_False_iff)

lemma test_library_rejects_all: "verifier_rejects (test_library [] plaintext known) c"
  by (simp add: verifier_rejects_iff test_library_def)

lemma decrypt_success:
  assumes "fernet_decrypt lib (urlsafe_b64encode lib (kdf_derive lib decrypt_kdf p)) ciphertext
           = Inr plaintext"
    and "decode_utf8 lib p = Some password" and "decode_utf8 lib plaintext = Some message"
  shows "decrypt lib p con = (Inr True, con @ success_lines password message)"
  using assms by (simp add: decrypt_def decrypt_body_def print_def success_lines_def)

lemma decrypt_True_cases:
  assumes "fst (decrypt lib p con) = Inr True"
  shows "\<exists>plaintext password message.
           fernet_decrypt lib (urlsafe_b64encode lib (kdf_derive lib decrypt_kdf p)) ciphertext
             = Inr plaintext \<and>
           decode_utf8 lib p = Some password \<and> decode_utf8 lib plaintext = Some message"
  using assms
  by (auto simp: decrypt_def decrypt_body_def Let_def split: sum.splits option.splits if_splits)

lemma decrypt_undecodable:
  assumes "fernet_decrypt lib (urlsafe_b64encode lib (kdf_derive lib decrypt_kdf p)) ciphertext
           = Inr plaintext"
    and "decode_utf8 lib p = None \<or> decode_utf8 lib plaintext = None"
  shows "fst (decrypt lib p con) = Inl UnicodeDecodeError"
  using assms
  by (auto simp: decrypt_def decrypt_body_def Let_def split: sum.splits option.splits)

lemma decrypt_prints_banner:
  assumes "fernet_decrypt lib (urlsafe_b64encode lib (kdf_derive lib decrypt_kdf p)) ciphertext
           = Inr plaintext"
  shows "take (length con + 2) (snd (decrypt lib p con)) =
         con @ [Text (CHR 0x0A # replicate 50 CHR ''=''), Text ''[!!!] SUCCESS! PASSWORD FOUND [!!!]'']"
  using assms
  by (auto simp: decrypt_def decrypt_body_def Let_def print_def split: sum.splits option.splits)

lemma test_library_key:
  "fernet_decrypt (test_library accepted plaintext known)
     (urlsafe_b64encode (test_library accepted plaintext known)
       (kdf_derive (test_library accepted plaintext known) decrypt_kdf p)) token =
   (if p \<in> set (map encode_utf8 accepted) then Inr plaintext else Inl InvalidToken)"
  by (auto simp: test_library_def decrypt_kdf_def salt_def benchmark_salt_def)

lemma test_library_bench_key:
  "fernet_decrypt (test_library accepted plaintext known)
     (urlsafe_b64encode (test_library accepted plaintext known)
       (kdf_derive (test_library accepted plaintext known) check_password_silent_kdf p)) token =
   (if p \<in> set (map encode_utf8 accepted) then Inr plaintext else Inl InvalidToken)"
  by (auto simp: test_library_def check_password_silent_kdf_def salt_def benchmark_salt_def)

lemma test_library_decode:
  "decode_utf8 (test_library accepted plaintext known) bs = find (\<lambda>t. encode_utf8 t = bs) known"
  by (simp add: test_library_def)

lemma enc_gatto: "encode_utf8 ''Gatto!0'' = [71, 97, 116, 116, 111, 33, 48]"
  by (simp add: encode_utf8_def utf8_of_char_def)

lemma enc_sicurezza: "encode_utf8 ''Sicurezza!0'' = [83, 105, 99, 117, 114, 101, 122, 122, 97, 33, 48]"
  by (simp add: encode_utf8_def utf8_of_char_def)

lemma enc_ciao: "encode_utf8 ''ciao'' = [99, 105, 97, 111]"
  by (simp add: encode_utf8_def utf8_of_char_def)

lemma test_run_success:
  "decrypt (test_library [''Sicurezza!0''] (encode_utf8 ''ciao'') [''Sicurezza!0'', ''ciao''])
     (encode_utf8 ''Sicurezza!0'') con = (Inr True, con @ success_lines ''Sicurezza!0'' ''ciao'')"
  by (rule decrypt_success[where plaintext = "encode_utf8 ''ciao''"])
     (simp_all add: test_library_key test_library_decode enc_sicurezza enc_ciao)

lemma test_run_no_match:
  "decrypt (test_library [''Sicurezza!0''] plaintext known) (encode_utf8 ''Gatto!0'') con
     = (Inr False, con)"
  by (rule decrypt_invalid_token) (simp add: test_library_key enc_gatto enc_sicurezza)

lemma length_full_mode:
  "length (password_generator str_upper symbols numbers full_dictionary) = 350400"
proof -
  have "length (password_generator str_upper symbols numbers full_dictionary) =
    closed_form_total (length symbols) (length numbers) full_dictionary"
    by (rule length_password_generator[OF symbols_single])
       (auto dest!: full_dictionary_lowercase simp: length_str_upper_lowercase)
  then show ?thesis by (simp add: closed_form_total_def symbols_def numbers_def full_dictionary_def)
qed

section \<open>The order of the candidates\<close>

lemma sorted_wrt_tagged:
  fixes f :: "nat \<Rightarrow> ('b::ord) list"
  assumes "sorted_wrt (<) xs" and "\<And>x. x \<in> set xs \<Longrightarrow> sorted_wrt (<) (f x)"
  shows "sorted_wrt (<) (concat (map (\<lambda>x. map (Pair x) (f x)) xs))"
  using assms
proof (induction xs)
  case Nil
  then show ?case by simp
next
  case (Cons x xs)
  have "sorted_wrt (<) (map (Pair x) (f x))"
    using Cons.prems(2)[of x] by (simp add: sorted_wrt_map)
  moreover have "sorted_wrt (<) (concat (map (\<lambda>x. map (Pair x) (f x)) xs))"
    using Cons by simp
  moreover have "p < q" if "p \<in> set (map (Pair x) (f x))"
    "q \<in> set (concat (map (\<lambda>x. map (Pair x) (f x)) xs))" for p q
    using that Cons.prems(1) by auto
  ultimately show ?case by (simp add: sorted_wrt_append)
qed

lemma set_tagged:
  "set (concat (map (\<lambda>x. map (Pair x) (f x)) xs)) = {(x, y). x \<in> set xs \<and> y \<in> set (f x)}"
  by auto

lemma map_tagged:
  "map (\<lambda>(x, y). g x y) (concat (map (\<lambda>x. map (Pair x) (f x)) xs)) =
   concat (map (\<lambda>x. map (g x) (f x)) xs)"
  by (simp add: map_concat comp_def)

lemma concat_map_by_index:
  "concat (map h xs) = concat (map (\<lambda>b. h (xs ! b)) [0..<length xs])"
proof -
  have "map h xs = map h (map ((!) xs) [0..<length xs])" by (simp only: map_nth)
  then show ?thesis by (simp add: comp_def)
qed

lemma number_loop_positions:
  "number_loop nums ws =
   map (\<lambda>(c, k). final_password ws (nums ! c) k) (number_positions nums ws)"
  unfolding number_loop_def number_positions_def map_tagged
  by (rule concat_map_by_index)

lemma symbol_loop_positions:
  "symbol_loop syms nums cw =
   map (\<lambda>(b, j, c, k). final_password (word_with_sym cw (syms ! b) j) (nums ! c) k)
     (symbol_positions syms nums cw)"
proof -
  have "symbol_loop syms nums cw =
    concat (map (\<lambda>b. concat (map (\<lambda>j. number_loop nums (word_with_sym cw (syms ! b) j))
         [0..<length cw + 1])) [0..<length syms])"
    unfolding symbol_loop_def by (rule concat_map_by_index)
  also have "\<dots> = concat (map (\<lambda>b. map (\<lambda>(j, c, k). final_password (word_with_sym cw (syms ! b) j) (nums ! c) k)
        (concat (map (\<lambda>j. map (Pair j) (number_positions nums (word_with_sym cw (syms ! b) j)))
          [0..<length cw + 1]))) [0..<length syms])"
    by (simp only: number_loop_positions map_tagged)
  also have "\<dots> = map (\<lambda>(b, j, c, k). final_password (word_with_sym cw (syms ! b) j) (nums ! c) k)
     (symbol_positions syms nums cw)"
    unfolding symbol_positions_def by (simp only: map_tagged)
  finally show ?thesis .
qed

lemma capital_loop_positions:
  "capital_loop up syms nums w =
   map (\<lambda>(i, b, j, c, k).
          final_password (word_with_sym (capitalized_word up w i) (syms ! b) j) (nums ! c) k)
     (capital_positions up syms nums w)"
  unfolding capital_loop_def capital_positions_def
  by (simp only: symbol_loop_positions map_tagged)

lemma password_generator_positions:
  "password_generator up syms nums wordlist =
   map (\<lambda>(a, i, b, j, c, k).
          final_password (word_with_sym (capitalized_word up (wordlist ! a) i) (syms ! b) j)
            (nums ! c) k)
     (generator_positions up syms nums wordlist)"
proof -
  have "password_generator up syms nums wordlist =
     concat (map (\<lambda>a. capital_loop up syms nums (wordlist ! a)) [0..<length wordlist])"
    unfolding password_generator_def by (rule concat_map_by_index)
  then show ?thesis
    unfolding generator_positions_def by (simp only: capital_loop_positions map_tagged)
qed

lemma sorted_upt: "sorted_wrt (<) [0..<n]"
  by (simp add: strict_sorted_iff)

lemma sorted_number_positions: "sorted_wrt (<) (number_positions nums ws)"
  unfolding number_positions_def by (intro sorted_wrt_tagged sorted_upt)

lemma sorted_symbol_positions: "sorted_wrt (<) (symbol_positions syms nums cw)"
  unfolding symbol_positions_def by (intro sorted_wrt_tagged sorted_upt sorted_number_positions)

lemma sorted_capital_positions: "sorted_wrt (<) (capital_positions up syms nums w)"
  unfolding capital_positions_def by (intro sorted_wrt_tagged sorted_upt sorted_symbol_positions)

lemma sorted_generator_positions: "sorted_wrt (<) (generator_positions up syms nums wordlist)"
  unfolding generator_positions_def by (intro sorted_wrt_tagged sorted_upt sorted_capital_positions)

lemma set_number_positions:
  "set (number_positions nums ws) = {(c, k). c < length nums \<and> k \<le> length ws}"
  unfolding number_positions_def set_tagged by auto

lemma set_symbol_positions:
  "set (symbol_positions syms nums cw) =
   {(b, j, c, k). b < length syms \<and> j \<le> length cw \<and> c < length nums \<and>
      k \<le> length (word_with_sym cw (syms ! b) j)}"
  unfolding symbol_positions_def set_tagged set_number_positions by auto

lemma set_capital_positions:
  "set (capital_positions up syms nums w) =
   {(i, b, j, c, k). i < length w \<and> b < length syms \<and> j \<le> length (capitalized_word up w i) \<and>
      c < length nums \<and> k \<le> length (word_with_sym (capitalized_word up w i) (syms ! b) j)}"
  unfolding capital_positions_def set_tagged set_symbol_positions by auto

lemma set_generator_positions:
  "set (generator_positions up syms nums wordlist) =
   {(a, i, b, j, c, k). a < length wordlist \<and> i < length (wordlist ! a) \<and> b < length syms \<and>
      j \<le> length (capitalized_word up (wordlist ! a) i) \<and> c < length nums \<and>
      k \<le> length (word_with_sym (capitalized_word up (wordlist ! a) i) (syms ! b) j)}"
  unfolding generator_positions_def set_tagged set_capital_positions by auto

lemma concat_singletons: "concat (map (\<lambda>p. [g p]) ps) = map g ps"
  by (induction ps) simp_all

lemma map_nth_upt: "j \<le> length w \<Longrightarrow> map ((!) w) [i..<j] = drop i (take j w)"
  by (rule nth_equalityI) auto

lemma capitalized_word_only_at:
  assumes "i < length w"
  shows "capitalized_word up w i = uppercased_only_at up i w"
proof -
  have "[0..<length w] = [0..<i] @ [i..<length w]"
    using assms by (metis le_add_diff_inverse less_imp_le_nat upt_add_eq_append zero_le)
  moreover have "[i..<length w] = i # [Suc i..<length w]"
    using assms by (simp add: upt_conv_Cons)
  ultimately have split: "[0..<length w] = [0..<i] @ i # [Suc i..<length w]"
    by simp
  have before: "concat (map (\<lambda>p. if p = i then up (w ! p) else [w ! p]) [0..<i]) = take i w"
  proof -
    have "map (\<lambda>p. if p = i then up (w ! p) else [w ! p]) [0..<i] = map (\<lambda>p. [w ! p]) [0..<i]"
      by simp
    moreover have "map ((!) w) [0..<i] = take i w"
      using assms by (simp add: map_nth_upt)
    ultimately show ?thesis by (simp only: concat_singletons)
  qed
  have after: "concat (map (\<lambda>p. if p = i then up (w ! p) else [w ! p]) [Suc i..<length w])
      = drop (Suc i) w"
  proof -
    have "map (\<lambda>p. if p = i then up (w ! p) else [w ! p]) [Suc i..<length w]
        = map (\<lambda>p. [w ! p]) [Suc i..<length w]"
      by simp
    moreover have "map ((!) w) [Suc i..<length w] = drop (Suc i) w"
      by (simp add: map_nth_upt)
    ultimately show ?thesis by (simp only: concat_singletons)
  qed
  show ?thesis
    unfolding uppercased_only_at_def capitalized_word_def split
    by (simp add: before after)
qed

lemma candidate_at_positions:
  assumes "p \<in> set (generator_positions up syms nums wordlist)"
  shows "(\<lambda>(a, i, b, j, c, k).
          final_password (word_with_sym (capitalized_word up (wordlist ! a) i) (syms ! b) j)
            (nums ! c) k) p = candidate_at up syms nums wordlist p"
  using assms unfolding set_generator_positions
  by (auto simp: candidate_at_def inserted_at_def final_password_def word_with_sym_def
      capitalized_word_only_at)

lemma candidate_positions_eq:
  "candidate_positions up syms nums wordlist = set (generator_positions up syms nums wordlist)"
  unfolding set_generator_positions candidate_positions_def
  by (auto simp: capitalized_word_only_at inserted_at_def word_with_sym_def)

section \<open>The structure of a candidate\<close>

lemma in_number_loop:
  assumes "x \<in> set (number_loop nums ws)"
  shows "\<exists>d k. d \<in> set nums \<and> x = final_password ws d k"
proof -
  from assms obtain d k where "d \<in> set nums" "x = final_password ws d k"
    unfolding number_loop_def by auto
  then show ?thesis by blast
qed

lemma in_symbol_loop:
  assumes "x \<in> set (symbol_loop syms nums cw)"
  shows "\<exists>s j d k. s \<in> set syms \<and> d \<in> set nums \<and> x = final_password (word_with_sym cw s j) d k"
proof -
  from assms obtain s j where s: "s \<in> set syms"
    and "x \<in> set (number_loop nums (word_with_sym cw s j))"
    unfolding symbol_loop_def by auto
  from in_number_loop[OF this(2)] s show ?thesis by blast
qed

lemma in_capital_loop:
  assumes "x \<in> set (capital_loop up syms nums w)"
  shows "\<exists>i s j d k. i < length w \<and> s \<in> set syms \<and> d \<in> set nums \<and>
      x = final_password (word_with_sym (capitalized_word up w i) s j) d k"
proof -
  from assms obtain i where i: "i < length w"
    and "x \<in> set (symbol_loop syms nums (capitalized_word up w i))"
    unfolding capital_loop_def by auto
  from in_symbol_loop[OF this(2)] i show ?thesis by blast
qed

lemma mset_inserted: "mset (take k xs @ s @ drop k xs) = mset xs + mset s"
proof -
  have "mset (take k xs @ drop k xs) = mset xs"
    by (simp only: append_take_drop_id)
  then have "mset (take k xs) + mset (drop k xs) = mset xs"
    by (simp only: mset_append)
  then show ?thesis by (simp add: ac_simps)
qed

lemma mset_capitalized_word:
  assumes "i < length w"
  shows "mset (capitalized_word up w i) + {#w ! i#} = mset w + mset (up (w ! i))"
proof -
  have "w = take i w @ w ! i # drop (Suc i) w"
    using assms by (rule id_take_nth_drop)
  then have "mset w = mset (take i w @ w ! i # drop (Suc i) w)"
    by simp
  then have "mset w = mset (take i w) + {#w ! i#} + mset (drop (Suc i) w)"
    by simp
  then show ?thesis by (simp add: capitalized_word_def)
qed

lemma mset_candidate:
  assumes "i < length w"
  shows "mset (final_password (word_with_sym (capitalized_word up w i) s j) d k) + {#w ! i#} =
         mset w + mset (up (w ! i)) + mset s + mset d"
proof -
  have "mset (final_password (word_with_sym (capitalized_word up w i) s j) d k) =
        mset (capitalized_word up w i) + mset s + mset d"
    unfolding final_password_def word_with_sym_def by (simp only: mset_inserted)
  then show ?thesis
    using mset_capitalized_word[OF assms, of up] by (simp add: ac_simps)
qed

lemma uppercase_other:
  "u \<in> set ascii_uppercase \<Longrightarrow>
   u \<notin> set ascii_lowercase \<and> [u] \<notin> set symbols \<and> [u] \<notin> set numbers"
  by (auto simp: ascii_uppercase_def ascii_lowercase_def symbols_def numbers_eq)

lemma lowercase_other:
  "c \<in> set ascii_lowercase \<Longrightarrow> [c] \<notin> set symbols \<and> [c] \<notin> set numbers"
  by (auto simp: ascii_lowercase_def symbols_def numbers_eq)

lemma in_concat_mapI: "y \<in> set ys \<Longrightarrow> x \<in> set (f y) \<Longrightarrow> x \<in> set (concat (map f ys))"
  by auto

lemma candidate_in_generator:
  assumes "i < length w" and "s \<in> set syms" and "j \<le> length (capitalized_word up w i)"
    and "d \<in> set nums" and "k \<le> length (word_with_sym (capitalized_word up w i) s j)"
  shows "final_password (word_with_sym (capitalized_word up w i) s j) d k
         \<in> set (password_generator up syms nums [w])"
proof -
  let ?cw = "capitalized_word up w i"
  let ?ws = "word_with_sym ?cw s j"
  have k: "k \<in> set [0..<length ?ws + 1]" using assms(5) by auto
  have j: "j \<in> set [0..<length ?cw + 1]" using assms(3) by auto
  have i: "i \<in> set [0..<length w]" using assms(1) by simp
  have "final_password ?ws d k \<in> set (map (\<lambda>k. final_password ?ws d k) [0..<length ?ws + 1])"
    using k by (auto simp del: upt_Suc)
  then have "final_password ?ws d k \<in> set (number_loop nums ?ws)"
    unfolding number_loop_def by (rule in_concat_mapI[OF assms(4)])
  then have "final_password ?ws d k \<in>
      set (concat (map (\<lambda>j. number_loop nums (word_with_sym ?cw s j)) [0..<length ?cw + 1]))"
    by (rule in_concat_mapI[OF j])
  then have "final_password ?ws d k \<in> set (symbol_loop syms nums ?cw)"
    unfolding symbol_loop_def by (rule in_concat_mapI[OF assms(2)])
  then show ?thesis
    unfolding password_generator_single capital_loop_def by (rule in_concat_mapI[OF i])
qed

lemma str_upper_g: "str_upper CHR ''g'' = ''G''"
  by (simp add: str_upper_def ascii_lowercase_def ascii_uppercase_def)

lemma gatto_candidate:
  "''Ga!tto7'' \<in> set (password_generator str_upper symbols numbers [''gatto''])"
proof -
  have "final_password (word_with_sym (capitalized_word str_upper ''gatto'' 0) ''!'' 2) ''7'' 6
         \<in> set (password_generator str_upper symbols numbers [''gatto''])"
    by (rule candidate_in_generator)
       (simp_all add: symbols_def numbers_eq capitalized_word_def word_with_sym_def str_upper_g)
  then show ?thesis
    by (simp add: capitalized_word_def word_with_sym_def final_password_def str_upper_g)
qed

lemma numbers_single: "d \<in> set numbers \<Longrightarrow> length d = 1"
  by (auto simp: numbers_eq)

lemma symbols_numbers_disjoint: "set symbols \<inter> set numbers = {}"
  by (auto simp: symbols_def numbers_eq)

lemma str_upper_e_grave: "str_upper (CHR 0xE8) = [CHR 0xC8]"
  by (simp add: str_upper_def ascii_lowercase_def ascii_uppercase_def
      latin1_lowercase_def latin1_uppercase_def)

lemma lowercase_letter:
  assumes "c \<in> set ascii_lowercase"
  shows "\<exists>u. str_upper c = [u] \<and> u \<noteq> c \<and> [u] \<notin> set symbols \<and> [u] \<notin> set numbers \<and>
             [c] \<notin> set symbols \<and> [c] \<notin> set numbers"
proof -
  from str_upper_lowercase[OF assms] obtain u where u: "str_upper c = [u]"
    "u \<in> set ascii_uppercase" by blast
  with uppercase_other[OF u(2)] lowercase_other[OF assms] assms show ?thesis by auto
qed

lemma lowercase_letter_single:
  assumes "c \<in> set ascii_lowercase"
  shows "length (str_upper c) = 1 \<and>
         (\<forall>u. str_upper c = [u] \<longrightarrow> u \<noteq> c \<and> [u] \<notin> set symbols \<and> [u] \<notin> set numbers \<and>
             [c] \<notin> set symbols \<and> [c] \<notin> set numbers)"
  using lowercase_letter[OF assms] by auto

lemma e_grave_candidate:
  "[CHR 0xC8, CHR ''!'', CHR ''7''] \<in> set (password_generator str_upper symbols numbers [[CHR 0xE8]])"
proof -
  have "final_password (word_with_sym (capitalized_word str_upper [CHR 0xE8] 0) ''!'' 1) ''7'' 2
         \<in> set (password_generator str_upper symbols numbers [[CHR 0xE8]])"
    by (rule candidate_in_generator)
       (simp_all add: symbols_def numbers_eq capitalized_word_def word_with_sym_def
          str_upper_e_grave)
  then show ?thesis
    by (simp add: capitalized_word_def word_with_sym_def final_password_def str_upper_e_grave)
qed

section \<open>Small concrete runs\<close>











section \<open>The claims\<close>

subsection \<open>C1: the number of candidates\<close>

text \<open>
  Claim C1, amended. For every wordlist whose characters each uppercase to a single
  character, and every list of single-character symbols: each base word \<open>w\<close> of length
  \<open>n\<close> yields exactly \<open>n * |symbols| * (n+1) * |digits| * (n+2)\<close> candidates, which is
  the count the calculator computes for the word; the generator yields the sum of this
  count over the words of the wordlist; and the single word
  "sicurezza", which is the wordlist of the quick-test mode the script is set to, yields
  exactly 99000 with the 10 symbols and 10 digits of the script.
\<close>

theorem candidate_count_closed_form:
  assumes "\<forall>s\<in>set syms. length s = 1"
    and "\<forall>w\<in>set wordlist. \<forall>c\<in>set w. length (up c) = 1"
  shows "(\<forall>w\<in>set wordlist.
            length (password_generator up syms nums [w]) =
            length w * length syms * (length w + 1) * length nums * (length w + 2)) \<and>
         (\<forall>w\<in>set wordlist.
            combinations_for_this_word nums syms w =
            length (password_generator up syms nums [w])) \<and>
         length (password_generator up syms nums wordlist) =
           (\<Sum>w\<leftarrow>wordlist. length w * length syms * (length w + 1) * length nums * (length w + 2)) \<and>
         length (password_generator str_upper symbols numbers [''sicurezza'']) = 99000 \<and>
         dictionary_to_use ATTACK_MODE = [''sicurezza'']"
proof (intro conjI ballI)
  fix w assume "w \<in> set wordlist"
  with assms show "length (password_generator up syms nums [w]) =
      length w * length syms * (length w + 1) * length nums * (length w + 2)"
    unfolding password_generator_single by (intro length_capital_loop) auto
next
  fix w assume "w \<in> set wordlist"
  with assms have "length (password_generator up syms nums [w]) =
      length w * length syms * (length w + 1) * length nums * (length w + 2)"
    unfolding password_generator_single by (intro length_capital_loop) auto
  moreover have "combinations_for_this_word nums syms w =
      length w * length syms * (length w + 1) * length nums * (length w + 2)"
    by (simp add: combinations_for_this_word_def Let_def algebra_simps)
  ultimately show "combinations_for_this_word nums syms w =
      length (password_generator up syms nums [w])"
    by (simp only:)
next
  show "length (password_generator up syms nums wordlist) =
      (\<Sum>w\<leftarrow>wordlist. length w * length syms * (length w + 1) * length nums * (length w + 2))"
    using assms length_password_generator[of syms wordlist up nums]
    by (simp add: closed_form_total_def)
next
  have "length (password_generator str_upper symbols numbers [''sicurezza'']) =
    closed_form_total (length symbols) (length numbers) [''sicurezza'']"
    by (rule length_password_generator[OF symbols_single])
       (auto simp: str_upper_def ascii_lowercase_def ascii_uppercase_def)
  then show "length (password_generator str_upper symbols numbers [''sicurezza'']) = 99000"
    by (simp add: closed_form_total_def symbols_def numbers_def)
next
  show "dictionary_to_use ATTACK_MODE = [''sicurezza'']"
    by (simp add: dictionary_to_use_def ATTACK_MODE_def)
qed

text \<open>
  The theorem at the words "gatto" and "pisa" of the script's dictionary.
\<close>

theorem candidate_count_closed_form_witness:
  "list_all (\<lambda>s. length s = 1) symbols \<and>
   list_all (\<lambda>w. list_all (\<lambda>c. length (str_upper c) = 1) w) [''gatto'', ''pisa''] \<and>
   length (password_generator str_upper symbols numbers [''gatto'']) = 21000 \<and>
   length (password_generator str_upper symbols numbers [''pisa'']) = 12000 \<and>
   length (password_generator str_upper symbols numbers [''gatto'', ''pisa'']) = 33000"
  using candidate_count_closed_form[of symbols "[''gatto'', ''pisa'']" str_upper numbers]
  by (simp add: symbols_def numbers_def str_upper_def ascii_lowercase_def ascii_uppercase_def)

text \<open>
  The claim as stated, for every base word, fails at the one-letter word U+00DF (sharp s):
  Python uppercases it to "SS", so the symbol has 3 insertion points and the digit has 4,
  and the generator yields 1200 candidates where the formula gives 600.
\<close>

theorem candidate_count_sharp_s_counterexample:
  "length (password_generator str_upper symbols numbers [[CHR 0xDF]]) \<noteq>
   length [CHR 0xDF] * length symbols * (length [CHR 0xDF] + 1) * length numbers *
     (length [CHR 0xDF] + 2)"
  unfolding length_sharp_s by (simp add: symbols_def numbers_def)

subsection \<open>C2: the order of the candidates\<close>

text \<open>
  Claim C2. The generator yields one candidate for every choice of a word of the wordlist,
  a letter position \<open>i\<close> of it, a symbol, an insertion point \<open>j\<close> from 0 to the length
  of the capitalized word inclusive, a digit and an insertion point \<open>k\<close> from 0 to the
  length of the word with the symbol inclusive; the candidate is the word with only position
  \<open>i\<close> uppercased, the symbol inserted at \<open>j\<close> and then the digit inserted at \<open>k\<close>; and
  the candidates come in the order of the nested loops, that is, in increasing lexicographic
  order of (word, \<open>i\<close>, symbol, \<open>j\<close>, digit, \<open>k\<close>), words, symbols and digits counted by
  their place in their lists. The digits of the script are "0" to "9" in this order.
\<close>

theorem generator_order:
  "password_generator up syms nums wordlist =
     map (candidate_at up syms nums wordlist)
       (sorted_list_of_set (candidate_positions up syms nums wordlist)) \<and>
   numbers = map (\<lambda>digit. [digit]) ''0123456789''"
proof
  have "sorted_list_of_set (set (generator_positions up syms nums wordlist)) =
        generator_positions up syms nums wordlist"
    using sorted_generator_positions[of up syms nums wordlist]
    by (intro sorted_list_of_set.idem_if_sorted_distinct) (simp_all add: strict_sorted_iff)
  then have "sorted_list_of_set (candidate_positions up syms nums wordlist) =
        generator_positions up syms nums wordlist"
    by (simp only: candidate_positions_eq)
  moreover have "password_generator up syms nums wordlist =
      map (candidate_at up syms nums wordlist) (generator_positions up syms nums wordlist)"
    unfolding password_generator_positions
    by (rule map_cong[OF refl]) (rule candidate_at_positions)
  ultimately show "password_generator up syms nums wordlist =
     map (candidate_at up syms nums wordlist)
       (sorted_list_of_set (candidate_positions up syms nums wordlist))"
    by simp
qed (rule numbers_eq)

subsection \<open>C3: a failed decryption is a plain no-match\<close>

text \<open>
  Claim C3. When the authenticated decryption of the token fails for a candidate, which the
  library reports as \<open>InvalidToken\<close> for a wrong key and for a malformed token alike,
  \<open>decrypt\<close> returns \<open>False\<close> and prints nothing, the benchmark's silent check returns
  without raising, and the attack loop runs through a list of such candidates to its end:
  no exception reaches the driver.
\<close>

theorem invalid_token_is_no_match:
  "(fernet_decrypt lib (urlsafe_b64encode lib (kdf_derive lib decrypt_kdf p)) ciphertext
      = Inl InvalidToken \<longrightarrow>
    decrypt lib p con = (Inr False, con)) \<and>
   (fernet_decrypt lib (urlsafe_b64encode lib (kdf_derive lib check_password_silent_kdf p))
      benchmark_ciphertext = Inl InvalidToken \<longrightarrow>
    check_password_silent lib p con = (Inr (), con)) \<and>
   ((\<forall>c\<in>set candidates.
       fernet_decrypt lib (urlsafe_b64encode lib (kdf_derive lib decrypt_kdf (encode_utf8 c)))
         ciphertext = Inl InvalidToken) \<longrightarrow>
    (\<exists>st'. attack_loop lib candidates st = Inr st' \<and>
           attempts st' = attempts st + length candidates))"
proof (intro conjI impI)
  assume "\<forall>c\<in>set candidates.
       fernet_decrypt lib (urlsafe_b64encode lib (kdf_derive lib decrypt_kdf (encode_utf8 c)))
         ciphertext = Inl InvalidToken"
  then have "\<And>c. c \<in> set candidates \<Longrightarrow> verifier_rejects lib c"
    by (simp add: verifier_rejects_iff)
  from attack_loop_all_rejected[OF this]
  show "\<exists>st'. attack_loop lib candidates st = Inr st' \<and>
           attempts st' = attempts st + length candidates"
    by blast
qed (simp_all add: decrypt_invalid_token check_password_silent_def)

text \<open>
  The theorem at the wrong password "Gatto!0", with a library that opens the token for
  "Sicurezza!0" only.
\<close>

theorem invalid_token_is_no_match_witness:
  "fernet_decrypt (test_library [''Sicurezza!0''] (encode_utf8 ''ciao'') [])
     (urlsafe_b64encode (test_library [''Sicurezza!0''] (encode_utf8 ''ciao'') [])
       (kdf_derive (test_library [''Sicurezza!0''] (encode_utf8 ''ciao'') []) decrypt_kdf
         (encode_utf8 ''Gatto!0''))) ciphertext = Inl InvalidToken \<and>
   decrypt (test_library [''Sicurezza!0''] (encode_utf8 ''ciao'') []) (encode_utf8 ''Gatto!0'') []
     = (Inr False, []) \<and>
   check_password_silent (test_library [''Sicurezza!0''] (encode_utf8 ''ciao'') [])
     (encode_utf8 ''Gatto!0'') [] = (Inr (), []) \<and>
   map_sum id attempts
     (attack_loop (test_library [''Sicurezza!0''] (encode_utf8 ''ciao'') []) [''Gatto!0'']
        (initial_state ''FULL'')) = Inr 1"
  using invalid_token_is_no_match[of "test_library [''Sicurezza!0''] (encode_utf8 ''ciao'') []"
      "encode_utf8 ''Gatto!0''" "[]" "[''Gatto!0'']" "initial_state ''FULL''"]
  by (auto simp: test_library_key test_library_bench_key enc_gatto enc_sicurezza initial_state_def)

subsection \<open>C4: first success or exhaustion\<close>



subsection \<open>C5: the structure of a candidate\<close>

text \<open>
  Claim C5, amended. Every candidate the generator yields from a base word of length \<open>n\<close>
  whose characters each uppercase to a single character, with single-character symbols and
  digits, has length \<open>n+2\<close>. When moreover the word is lowercase, that is, each character
  of it differs from its capital and neither of the two is a symbol or a digit, and no
  symbol is a digit, then the capital of one of the word's letters occurs in the candidate
  exactly once more than in the word, and the candidate holds exactly one character of the
  symbol set and exactly one character of the digit set more than the word does.
\<close>

theorem candidate_structure:
  assumes syms: "\<forall>s\<in>set syms. length s = 1"
    and nums: "\<forall>d\<in>set nums. length d = 1"
    and single: "\<forall>c\<in>set w. length (up c) = 1"
    and cand: "candidate \<in> set (password_generator up syms nums [w])"
  shows "length candidate = length w + 2 \<and>
         (set syms \<inter> set nums = {} \<and>
          (\<forall>c\<in>set w. \<forall>u. up c = [u] \<longrightarrow>
             u \<noteq> c \<and> [u] \<notin> set syms \<and> [u] \<notin> set nums \<and> [c] \<notin> set syms \<and> [c] \<notin> set nums) \<longrightarrow>
          (\<exists>i u. i < length w \<and> up (w ! i) = [u] \<and>
                 count_list candidate u = count_list w u + 1) \<and>
          length (filter (\<lambda>x. [x] \<in> set syms) candidate) =
            length (filter (\<lambda>x. [x] \<in> set syms) w) + 1 \<and>
          length (filter (\<lambda>x. [x] \<in> set nums) candidate) =
            length (filter (\<lambda>x. [x] \<in> set nums) w) + 1)"
proof -
  from cand obtain i s j d k where i: "i < length w" and s: "s \<in> set syms"
    and d: "d \<in> set nums"
    and c: "candidate = final_password (word_with_sym (capitalized_word up w i) s j) d k"
    unfolding password_generator_single by (blast dest: in_capital_loop)
  from i have wi: "w ! i \<in> set w" by simp
  with single obtain u where u: "up (w ! i) = [u]"
    by (metis length_0_conv length_Suc_conv One_nat_def)
  from s syms obtain x where x: "s = [x]"
    by (metis length_0_conv length_Suc_conv One_nat_def)
  from d nums obtain y where y: "d = [y]"
    by (metis length_0_conv length_Suc_conv One_nat_def)
  have m: "mset candidate + {#w ! i#} = mset w + {#u#} + {#x#} + {#y#}"
    unfolding c using mset_candidate[OF i, of up s j d k] by (simp add: u x y)
  have len: "length candidate = length w + 2"
    using arg_cong[OF m, of size] by simp
  have rest: "(\<exists>i u. i < length w \<and> up (w ! i) = [u] \<and>
                 count_list candidate u = count_list w u + 1) \<and>
          length (filter (\<lambda>x. [x] \<in> set syms) candidate) =
            length (filter (\<lambda>x. [x] \<in> set syms) w) + 1 \<and>
          length (filter (\<lambda>x. [x] \<in> set nums) candidate) =
            length (filter (\<lambda>x. [x] \<in> set nums) w) + 1"
    if disjoint: "set syms \<inter> set nums = {}"
      and letters: "\<forall>c\<in>set w. \<forall>u. up c = [u] \<longrightarrow>
             u \<noteq> c \<and> [u] \<notin> set syms \<and> [u] \<notin> set nums \<and> [c] \<notin> set syms \<and> [c] \<notin> set nums"
  proof -
    from letters wi u have l: "u \<noteq> w ! i" "[u] \<notin> set syms" "[u] \<notin> set nums"
      "[w ! i] \<notin> set syms" "[w ! i] \<notin> set nums"
      by blast+
    have xs: "[x] \<in> set syms" "[x] \<notin> set nums" using s x disjoint by auto
    have ys: "[y] \<in> set nums" "[y] \<notin> set syms" using d y disjoint by auto
    have neq: "w ! i \<noteq> u" "x \<noteq> u" "y \<noteq> u"
      using l xs ys by auto
    have cnt: "count_list candidate u = count_list w u + 1"
      using arg_cong[OF m, of "\<lambda>M. count M u"] neq by (simp add: count_mset)
    have sym: "length (filter (\<lambda>x. [x] \<in> set syms) candidate) =
             length (filter (\<lambda>x. [x] \<in> set syms) w) + 1"
      using arg_cong[OF m, of "\<lambda>M. size (filter_mset (\<lambda>x. [x] \<in> set syms) M)"] l xs ys
      by (simp flip: mset_filter)
    have num: "length (filter (\<lambda>x. [x] \<in> set nums) candidate) =
             length (filter (\<lambda>x. [x] \<in> set nums) w) + 1"
      using arg_cong[OF m, of "\<lambda>M. size (filter_mset (\<lambda>x. [x] \<in> set nums) M)"] l xs ys
      by (simp flip: mset_filter)
    from i u cnt sym num show ?thesis by blast
  qed
  from len rest show ?thesis by blast
qed

text \<open>
  The theorem at the candidate "Ga!tto7" of the word "gatto" and at the candidate
  U+00C8 "!" "7" of the one-letter word U+00E8 (e with grave), with the symbols, the digits
  and the uppercasing of the script.
\<close>

theorem candidate_structure_witness:
  "list_all (\<lambda>s. length s = 1) symbols \<and> list_all (\<lambda>d. length d = 1) numbers \<and>
   set symbols \<inter> set numbers = {} \<and>
   list_all (\<lambda>c. length (str_upper c) = 1 \<and>
               (\<forall>u. str_upper c = [u] \<longrightarrow> u \<noteq> c \<and> [u] \<notin> set symbols \<and> [u] \<notin> set numbers \<and>
                  [c] \<notin> set symbols \<and> [c] \<notin> set numbers)) ''gatto'' \<and>
   ''Ga!tto7'' \<in> set (password_generator str_upper symbols numbers [''gatto'']) \<and>
   length ''Ga!tto7'' = length ''gatto'' + 2 \<and>
   (\<exists>i u. i < length ''gatto'' \<and> str_upper (''gatto'' ! i) = [u] \<and>
          count_list ''Ga!tto7'' u = count_list ''gatto'' u + 1) \<and>
   length (filter (\<lambda>x. [x] \<in> set symbols) ''Ga!tto7'') =
     length (filter (\<lambda>x. [x] \<in> set symbols) ''gatto'') + 1 \<and>
   length (filter (\<lambda>x. [x] \<in> set numbers) ''Ga!tto7'') =
     length (filter (\<lambda>x. [x] \<in> set numbers) ''gatto'') + 1 \<and>
   list_all (\<lambda>c. length (str_upper c) = 1 \<and>
               (\<forall>u. str_upper c = [u] \<longrightarrow> u \<noteq> c \<and> [u] \<notin> set symbols \<and> [u] \<notin> set numbers \<and>
                  [c] \<notin> set symbols \<and> [c] \<notin> set numbers)) [CHR 0xE8] \<and>
   [CHR 0xC8, CHR ''!'', CHR ''7'']
     \<in> set (password_generator str_upper symbols numbers [[CHR 0xE8]]) \<and>
   length [CHR 0xC8, CHR ''!'', CHR ''7''] = length [CHR 0xE8 :: char] + 2 \<and>
   count_list [CHR 0xC8, CHR ''!'', CHR ''7''] (CHR 0xC8) = count_list [CHR 0xE8] (CHR 0xC8) + 1"
proof -
  have s: "\<forall>s\<in>set symbols. length s = 1" by (simp add: symbols_single)
  have n: "\<forall>d\<in>set numbers. length d = 1" by (simp add: numbers_single)
  have g: "\<forall>c\<in>set ''gatto''. length (str_upper c) = 1 \<and>
      (\<forall>u. str_upper c = [u] \<longrightarrow> u \<noteq> c \<and> [u] \<notin> set symbols \<and>
      [u] \<notin> set numbers \<and> [c] \<notin> set symbols \<and> [c] \<notin> set numbers)"
    by (intro ballI lowercase_letter_single) (auto simp: ascii_lowercase_def)
  have e: "\<forall>c\<in>set [CHR 0xE8]. length (str_upper c) = 1 \<and>
      (\<forall>u. str_upper c = [u] \<longrightarrow> u \<noteq> c \<and> [u] \<notin> set symbols \<and>
      [u] \<notin> set numbers \<and> [c] \<notin> set symbols \<and> [c] \<notin> set numbers)"
    by (simp add: str_upper_e_grave symbols_def numbers_eq)
  have g1: "\<forall>c\<in>set ''gatto''. length (str_upper c) = 1" using g by blast
  have e1: "\<forall>c\<in>set [CHR 0xE8]. length (str_upper c) = 1" using e by blast
  note t1 = candidate_structure[OF s n g1 gatto_candidate]
  note t2 = candidate_structure[OF s n e1 e_grave_candidate]
  have c2: "count_list [CHR 0xC8, CHR ''!'', CHR ''7''] (CHR 0xC8) =
      count_list [CHR 0xE8] (CHR 0xC8) + 1"
    by simp
  have r1: "(\<exists>i u. i < length ''gatto'' \<and> str_upper (''gatto'' ! i) = [u] \<and>
          count_list ''Ga!tto7'' u = count_list ''gatto'' u + 1) \<and>
     length (filter (\<lambda>x. [x] \<in> set symbols) ''Ga!tto7'') =
       length (filter (\<lambda>x. [x] \<in> set symbols) ''gatto'') + 1 \<and>
     length (filter (\<lambda>x. [x] \<in> set numbers) ''Ga!tto7'') =
       length (filter (\<lambda>x. [x] \<in> set numbers) ''gatto'') + 1"
    using t1 g symbols_numbers_disjoint by blast
  show ?thesis
    using t1 t2 r1 s n g e gatto_candidate e_grave_candidate symbols_numbers_disjoint c2
    unfolding list_all_iff by blast
qed

text \<open>
  The claim as stated fails at the lowercase one-letter word U+00DF (sharp s): its first candidate
  is "0!SS", of length 4 and not 3.
\<close>

theorem candidate_length_sharp_s_counterexample:
  "''0!SS'' \<in> set (password_generator str_upper symbols numbers [[CHR 0xDF]]) \<and>
   length ''0!SS'' \<noteq> length [CHR 0xDF :: char] + 2"
proof -
  have "final_password (word_with_sym (capitalized_word str_upper [CHR 0xDF] 0) ''!'' 0) ''0'' 0
         \<in> set (password_generator str_upper symbols numbers [[CHR 0xDF]])"
    by (rule candidate_in_generator)
       (simp_all add: symbols_def numbers_eq)
  then show ?thesis
    by (simp add: capitalized_word_def word_with_sym_def final_password_def str_upper_sharp_s)
qed

subsection \<open>C6: determinism, and the console output of the verifier\<close>

text \<open>
  Claim C6, amended. The verdict of \<open>decrypt\<close> and the lines it prints depend on the
  candidate alone, not on the state it is invoked in, and its only effect on that state is
  to append these lines to the console; so a second invocation on the same candidate, in
  the state the first one left, gives the same verdict. A no-match verification prints
  nothing. A successful one prints the five lines of the success banner, with the decoded
  candidate and the decoded plaintext that the token opens to.
\<close>

theorem decrypt_same_verdict_prints_on_success:
  "decrypt lib p con = (fst (decrypt lib p []), con @ snd (decrypt lib p [])) \<and>
   fst (decrypt lib p (snd (decrypt lib p con))) = fst (decrypt lib p con) \<and>
   (fst (decrypt lib p con) = Inr False \<longrightarrow> snd (decrypt lib p con) = con) \<and>
   (fst (decrypt lib p con) = Inr True \<longrightarrow>
      (\<exists>plaintext password message.
         fernet_decrypt lib (urlsafe_b64encode lib (kdf_derive lib decrypt_kdf p)) ciphertext
           = Inr plaintext \<and>
         decode_utf8 lib p = Some password \<and> decode_utf8 lib plaintext = Some message \<and>
         snd (decrypt lib p con) = con @ success_lines password message))"
proof (intro conjI impI)
  show "decrypt lib p con = (fst (decrypt lib p []), con @ snd (decrypt lib p []))"
    by (rule decrypt_console)
next
  show "fst (decrypt lib p (snd (decrypt lib p con))) = fst (decrypt lib p con)"
    using decrypt_console[of lib p con] decrypt_console[of lib p "snd (decrypt lib p con)"]
    by (metis fst_conv)
next
  assume "fst (decrypt lib p con) = Inr False"
  then show "snd (decrypt lib p con) = con" by (rule decrypt_rejects_silent)
next
  assume "fst (decrypt lib p con) = Inr True"
  from decrypt_True_cases[OF this] obtain plaintext password msg where h:
    "fernet_decrypt lib (urlsafe_b64encode lib (kdf_derive lib decrypt_kdf p)) ciphertext
       = Inr plaintext"
    "decode_utf8 lib p = Some password" "decode_utf8 lib plaintext = Some msg"
    by blast
  from decrypt_success[OF h, of con] h
  show "\<exists>plaintext password message.
         fernet_decrypt lib (urlsafe_b64encode lib (kdf_derive lib decrypt_kdf p)) ciphertext
           = Inr plaintext \<and>
         decode_utf8 lib p = Some password \<and> decode_utf8 lib plaintext = Some message \<and>
         snd (decrypt lib p con) = con @ success_lines password message"
    by auto
qed

text \<open>
  The theorem at a wrong and at the right password of a library that opens the token for
  "Sicurezza!0" to the plaintext "ciao".
\<close>

theorem decrypt_same_verdict_prints_on_success_witness:
  "fst (decrypt (test_library [''Sicurezza!0''] (encode_utf8 ''ciao'') [''Sicurezza!0'', ''ciao''])
     (encode_utf8 ''Gatto!0'') []) = Inr False \<and>
   snd (decrypt (test_library [''Sicurezza!0''] (encode_utf8 ''ciao'') [''Sicurezza!0'', ''ciao''])
     (encode_utf8 ''Gatto!0'') []) = [] \<and>
   fst (decrypt (test_library [''Sicurezza!0''] (encode_utf8 ''ciao'') [''Sicurezza!0'', ''ciao''])
     (encode_utf8 ''Sicurezza!0'') []) = Inr True \<and>
   decode_utf8 (test_library [''Sicurezza!0''] (encode_utf8 ''ciao'') [''Sicurezza!0'', ''ciao''])
     (encode_utf8 ''Sicurezza!0'') = Some ''Sicurezza!0'' \<and>
   decode_utf8 (test_library [''Sicurezza!0''] (encode_utf8 ''ciao'') [''Sicurezza!0'', ''ciao''])
     (encode_utf8 ''ciao'') = Some ''ciao'' \<and>
   snd (decrypt (test_library [''Sicurezza!0''] (encode_utf8 ''ciao'') [''Sicurezza!0'', ''ciao''])
     (encode_utf8 ''Sicurezza!0'') []) = success_lines ''Sicurezza!0'' ''ciao''"
proof -
  let ?lib = "test_library [''Sicurezza!0''] (encode_utf8 ''ciao'') [''Sicurezza!0'', ''ciao'']"
  have bad: "fst (decrypt ?lib (encode_utf8 ''Gatto!0'') []) = Inr False"
    by (simp add: test_run_no_match)
  have good: "fst (decrypt ?lib (encode_utf8 ''Sicurezza!0'') []) = Inr True"
    by (simp add: test_run_success)
  have key: "fernet_decrypt ?lib
      (urlsafe_b64encode ?lib (kdf_derive ?lib decrypt_kdf (encode_utf8 ''Sicurezza!0''))) ciphertext
      = Inr (encode_utf8 ''ciao'')"
    by (simp add: test_library_key)
  have d1: "decode_utf8 ?lib (encode_utf8 ''Sicurezza!0'') = Some ''Sicurezza!0''"
    by (simp add: test_library_decode)
  have d2: "decode_utf8 ?lib (encode_utf8 ''ciao'') = Some ''ciao''"
    by (simp add: test_library_decode enc_sicurezza enc_ciao)
  from decrypt_same_verdict_prints_on_success[of ?lib "encode_utf8 ''Gatto!0''" "[]"] bad
  have silent: "snd (decrypt ?lib (encode_utf8 ''Gatto!0'') []) = []"
    by blast
  from decrypt_same_verdict_prints_on_success[of ?lib "encode_utf8 ''Sicurezza!0''" "[]"] good
  obtain plaintext password message where
    "fernet_decrypt ?lib
      (urlsafe_b64encode ?lib (kdf_derive ?lib decrypt_kdf (encode_utf8 ''Sicurezza!0''))) ciphertext
      = Inr plaintext"
    "decode_utf8 ?lib (encode_utf8 ''Sicurezza!0'') = Some password"
    "decode_utf8 ?lib plaintext = Some message"
    "snd (decrypt ?lib (encode_utf8 ''Sicurezza!0'') []) = [] @ success_lines password message"
    by blast
  with key d1 d2 have "snd (decrypt ?lib (encode_utf8 ''Sicurezza!0'') []) =
      success_lines ''Sicurezza!0'' ''ciao''"
    by simp
  with bad good silent d1 d2 show ?thesis by blast
qed

text \<open>
  The claim as stated, no I/O, fails for a candidate that decrypts the token: the console,
  empty before, holds five lines after.
\<close>

theorem decrypt_prints_counterexample:
  "snd (decrypt (test_library [''Sicurezza!0''] (encode_utf8 ''ciao'') [''Sicurezza!0'', ''ciao''])
     (encode_utf8 ''Sicurezza!0'') []) =
   [Text (CHR 0x0A # replicate 50 CHR ''=''), Text ''[!!!] SUCCESS! PASSWORD FOUND [!!!]'',
    Text '' -> Password: Sicurezza!0'', Text '' -> Plaintext: ciao'',
    Text (replicate 50 CHR ''='')] \<and>
   snd (decrypt (test_library [''Sicurezza!0''] (encode_utf8 ''ciao'') [''Sicurezza!0'', ''ciao''])
     (encode_utf8 ''Sicurezza!0'') []) \<noteq> []"
  by (simp add: test_run_success success_lines_def)

subsection \<open>C8: the salts of the scripts\<close>

text \<open>
  Claim C8 says that every script attacks the same target with a 16-byte salt and 100000
  iterations. Both scripts use 100000 iterations, and the cracker's salt has 16 bytes; the
  benchmark's salt literal has 18 bytes and is a different byte string, and its token is a
  different token too.
\<close>

theorem benchmark_salt_differs:
  "length salt = 16 \<and> length benchmark_salt = 18 \<and> benchmark_salt \<noteq> salt \<and>
   kdf_salt decrypt_kdf = salt \<and> kdf_salt check_password_silent_kdf = benchmark_salt \<and>
   iterations decrypt_kdf = 100000 \<and> iterations check_password_silent_kdf = 100000 \<and>
   benchmark_ciphertext \<noteq> ciphertext"
  by (simp add: salt_def benchmark_salt_def decrypt_kdf_def check_password_silent_kdf_def
      ciphertext_def benchmark_ciphertext_def ascii_bytes_def)

subsection \<open>C9: the success branch of the verifier\<close>

text \<open>
  Claim C9. When the Fernet decryption succeeds, \<open>decrypt\<close> has already printed the first
  two lines of the banner when it decodes; if the password bytes or the plaintext bytes are
  not valid UTF-8 it raises \<open>UnicodeDecodeError\<close> instead of returning, and otherwise it
  prints the password and the plaintext and returns \<open>True\<close>.
\<close>

theorem decrypt_raises_on_undecodable:
  assumes "fernet_decrypt lib (urlsafe_b64encode lib (kdf_derive lib decrypt_kdf p)) ciphertext
           = Inr plaintext"
  shows "(decode_utf8 lib p = None \<or> decode_utf8 lib plaintext = None \<longrightarrow>
            fst (decrypt lib p con) = Inl UnicodeDecodeError) \<and>
         (\<forall>password message.
            decode_utf8 lib p = Some password \<and> decode_utf8 lib plaintext = Some message \<longrightarrow>
            decrypt lib p con = (Inr True, con @ success_lines password message)) \<and>
         take (length con + 2) (snd (decrypt lib p con)) =
           con @ [Text (CHR 0x0A # replicate 50 CHR ''=''),
                  Text ''[!!!] SUCCESS! PASSWORD FOUND [!!!]'']"
  using decrypt_undecodable[OF assms, of con] decrypt_success[OF assms, of _ _ con]
    decrypt_prints_banner[OF assms, of con]
  by blast

text \<open>
  The theorem at a library whose token opens to the single byte 0xFF, which is not UTF-8.
\<close>

theorem decrypt_raises_on_undecodable_witness:
  "fernet_decrypt (test_library [''Sicurezza!0''] [0xFF] [''Sicurezza!0'', ''ciao''])
     (urlsafe_b64encode (test_library [''Sicurezza!0''] [0xFF] [''Sicurezza!0'', ''ciao''])
       (kdf_derive (test_library [''Sicurezza!0''] [0xFF] [''Sicurezza!0'', ''ciao'']) decrypt_kdf
         (encode_utf8 ''Sicurezza!0''))) ciphertext = Inr [0xFF] \<and>
   decode_utf8 (test_library [''Sicurezza!0''] [0xFF] [''Sicurezza!0'', ''ciao'']) [0xFF] = None \<and>
   fst (decrypt (test_library [''Sicurezza!0''] [0xFF] [''Sicurezza!0'', ''ciao''])
     (encode_utf8 ''Sicurezza!0'') []) = Inl UnicodeDecodeError \<and>
   take 2 (snd (decrypt (test_library [''Sicurezza!0''] [0xFF] [''Sicurezza!0'', ''ciao''])
     (encode_utf8 ''Sicurezza!0'') [])) =
     [Text (CHR 0x0A # replicate 50 CHR ''=''), Text ''[!!!] SUCCESS! PASSWORD FOUND [!!!]'']"
  using decrypt_raises_on_undecodable[of
      "test_library [''Sicurezza!0''] [0xFF] [''Sicurezza!0'', ''ciao'']"
      "encode_utf8 ''Sicurezza!0''" "[0xFF]" "[]"]
  by (simp add: test_library_key test_library_decode enc_sicurezza enc_ciao numeral_2_eq_2)

subsection \<open>C10: the calculator counts "password", the cracker does not\<close>

text \<open>
  Claim C10. The calculator's dictionary has 10 words and contains "password"; the
  cracker's full dictionary has 9 words and does not. The calculator's total is 422400,
  the cracker enumerates 350400 candidates in FULL mode, and the difference is the 72000
  candidates of "password"; a FULL run in which every candidate is rejected ends with
  350400 attempts, not with the calculator's total.
\<close>

theorem calculator_counts_password:
  "length dictionary = 10 \<and> ''password'' \<in> set dictionary \<and>
   length full_dictionary = 9 \<and> ''password'' \<notin> set full_dictionary \<and>
   total_combinations = 422400 \<and>
   combinations_for_this_word calculator_numbers special_chars ''password'' = 72000 \<and>
   length (password_generator str_upper symbols numbers (dictionary_to_use ''FULL'')) = 350400 \<and>
   total_combinations =
     length (password_generator str_upper symbols numbers (dictionary_to_use ''FULL'')) + 72000 \<and>
   ((\<forall>c\<in>set (password_generator str_upper symbols numbers (dictionary_to_use ''FULL'')).
       verifier_rejects lib c) \<longrightarrow>
    (\<exists>st. cracker lib ''FULL'' = Inr st \<and> \<not> password_found st \<and> attempts st = 350400 \<and>
          attempts st \<noteq> total_combinations))"
proof -
  have d: "dictionary_to_use ''FULL'' = full_dictionary"
    by (simp add: dictionary_to_use_def)
  have t: "total_combinations = 422400"
    by (simp add: total_combinations_def total_combinations_of_def combinations_for_this_word_def
        dictionary_def special_chars_def calculator_numbers_def)
  have p: "combinations_for_this_word calculator_numbers special_chars ''password'' = 72000"
    by (simp add: combinations_for_this_word_def special_chars_def calculator_numbers_def)
  have run: "\<exists>st. cracker lib ''FULL'' = Inr st \<and> \<not> password_found st \<and> attempts st = 350400 \<and>
          attempts st \<noteq> total_combinations"
    if "\<forall>c\<in>set (password_generator str_upper symbols numbers (dictionary_to_use ''FULL'')).
       verifier_rejects lib c"
  proof -
    from that attack_loop_all_rejected[of "password_generator str_upper symbols numbers full_dictionary"
        lib "initial_state ''FULL''"]
    obtain st' where "attack_loop lib (password_generator str_upper symbols numbers full_dictionary)
        (initial_state ''FULL'') = Inr st'"
      "attempts st' = attempts (initial_state ''FULL'') + 350400"
      "password_found st' = password_found (initial_state ''FULL'')"
      unfolding d length_full_mode by blast
    then show ?thesis
      by (simp add: cracker_def d summary_def initial_state_def t)
  qed
  show ?thesis
    using run by (simp add: d t p length_full_mode) (simp add: dictionary_def full_dictionary_def)
qed

text \<open>
  The theorem at a library that rejects every key.
\<close>

theorem calculator_counts_password_witness:
  "list_all (verifier_rejects (test_library [] [] []))
     (password_generator str_upper symbols numbers (dictionary_to_use ''FULL'')) \<and>
   map_sum id attempts (cracker (test_library [] [] []) ''FULL'') = Inr 350400"
  using calculator_counts_password[of "test_library [] [] []"]
  by (auto simp: list_all_iff test_library_rejects_all)

end
